theory Spec2Isabelle
  imports Main "HOL-Library.AList" "HOL-Library.Log_Nat"
begin

section \<open>Python strings\<close>

text \<open>
  The parser of \<^verbatim>\<open>src/app.py\<close> works on \<^verbatim>\<open>df_str = df.astype(str)\<close>: every cell
  is a Python \<^verbatim>\<open>str\<close>, an absent cell being the text \<^verbatim>\<open>nan\<close>. Cell texts are modelled
  as \<^typ>\<open>string\<close> and read as ASCII text: only the letters a-z and A-Z have case, and the
  white space of \<^verbatim>\<open>str.strip\<close> is the ASCII part of Python's (codes 9-13, 28-32).
\<close>

definition is_space :: "char \<Rightarrow> bool" where
  "is_space c = (let n = (of_char c :: nat) in (9 \<le> n \<and> n \<le> 13) \<or> (28 \<le> n \<and> n \<le> 32))"

definition strip :: "string \<Rightarrow> string" where
  "strip s = rev (dropWhile is_space (rev (dropWhile is_space s)))"

definition upper_char :: "char \<Rightarrow> char" where
  "upper_char c = (let n = (of_char c :: nat) in if 97 \<le> n \<and> n \<le> 122 then char_of (n - 32) else c)"

definition lower_char :: "char \<Rightarrow> char" where
  "lower_char c = (let n = (of_char c :: nat) in if 65 \<le> n \<and> n \<le> 90 then char_of (n + 32) else c)"

definition upper :: "string \<Rightarrow> string" where
  "upper s = map upper_char s"

definition lower :: "string \<Rightarrow> string" where
  "lower s = map lower_char s"

text \<open>\<^verbatim>\<open>s.startswith(p)\<close> and \<^verbatim>\<open>t in s\<close> (substring test).\<close>

fun startswith :: "string \<Rightarrow> string \<Rightarrow> bool" where
  "startswith s [] = True"
| "startswith [] (p # ps) = False"
| "startswith (c # cs) (p # ps) = (c = p \<and> startswith cs ps)"

fun py_in :: "string \<Rightarrow> string \<Rightarrow> bool" where
  "py_in t [] = (t = [])"
| "py_in t (c # cs) = (startswith (c # cs) t \<or> py_in t cs)"

text \<open>\<^verbatim>\<open>s.startswith(ps)\<close> for a tuple \<^verbatim>\<open>ps\<close>.\<close>

definition startswith_any :: "string \<Rightarrow> string list \<Rightarrow> bool" where
  "startswith_any s ps = list_ex (startswith s) ps"

text \<open>\<^verbatim>\<open>sep.join(xs)\<close>.\<close>

fun join :: "string \<Rightarrow> string list \<Rightarrow> string" where
  "join sep [] = []"
| "join sep [x] = x"
| "join sep (x # y # ys) = x @ sep @ join sep (y # ys)"

text \<open>\<^verbatim>\<open>str(i)\<close> for a non-negative integer, as the f-string \<^verbatim>\<open>f"{i} -"\<close> renders it.\<close>

definition digit_char :: "nat \<Rightarrow> char" where
  "digit_char d = char_of (48 + d)"

function str_nat :: "nat \<Rightarrow> string" where
  "str_nat n = (if n < 10 then [digit_char n] else str_nat (n div 10) @ [digit_char (n mod 10)])"
  by pat_completeness auto
termination
  by (relation "measure id") auto

declare str_nat.simps [simp del]

section \<open>Python numbers: \<^verbatim>\<open>int(float(s))\<close>\<close>

datatype py_error = ValueError | IndexError | OverflowError

text \<open>
  A binary64 value: \<open>Finite m k\<close> is \<open>m * 2^k\<close>; \<open>Inf neg\<close> is the infinity of that sign.
\<close>

datatype py_float = Finite int int | Inf bool | NaN

definition is_digit :: "char \<Rightarrow> bool" where
  "is_digit c = (let n = (of_char c :: nat) in 48 \<le> n \<and> n \<le> 57)"

definition digit_val :: "char \<Rightarrow> int" where
  "digit_val c = int (of_char c) - 48"

definition digits_val :: "string \<Rightarrow> int" where
  "digits_val ds = foldl (\<lambda>a c. 10 * a + digit_val c) 0 ds"

text \<open>
  \<^verbatim>\<open>float\<close> accepts an underscore only between two digits; the characters are copied
  without the underscores, \<open>prev\<close> being the character before.
\<close>

fun strip_underscores :: "char \<Rightarrow> string \<Rightarrow> string option" where
  "strip_underscores prev [] = (if prev = CHR ''_'' then None else Some [])"
| "strip_underscores prev (c # cs) =
     (if c = CHR ''_'' then (if is_digit prev then strip_underscores c cs else None)
      else if prev = CHR ''_'' \<and> \<not> is_digit c then None
      else map_option ((#) c) (strip_underscores c cs))"

text \<open>The exponent part, up to the end of the text: nothing, or e/E, a sign, digits.\<close>

definition parse_exponent :: "string \<Rightarrow> int option" where
  "parse_exponent r =
     (case r of
        [] \<Rightarrow> Some 0
      | c # cs \<Rightarrow>
          if c = CHR ''e'' \<or> c = CHR ''E'' then
            (let (neg, ds) =
               (case cs of
                  [] \<Rightarrow> (False, [])
                | d # ds' \<Rightarrow> if d = CHR ''-'' then (True, ds')
                            else if d = CHR ''+'' then (False, ds') else (False, cs))
             in if ds \<noteq> [] \<and> list_all is_digit ds
                then Some (if neg then - digits_val ds else digits_val ds)
                else None)
          else None)"

text \<open>
  An unsigned decimal text: digits, an optional point and digits (one digit at least), an
  optional exponent. The value is \<open>m * 10^e\<close>, returned as \<open>(m, e)\<close>.
\<close>

definition parse_decimal :: "string \<Rightarrow> (int \<times> int) option" where
  "parse_decimal s =
     (let ip = takeWhile is_digit s; r1 = dropWhile is_digit s;
          (fp, r2) =
            (case r1 of
               [] \<Rightarrow> ([], [])
             | c # cs \<Rightarrow> if c = CHR ''.'' then (takeWhile is_digit cs, dropWhile is_digit cs)
                         else ([], r1))
      in if ip = [] \<and> fp = [] then None
         else (case parse_exponent r2 of
                 None \<Rightarrow> None
               | Some e \<Rightarrow> Some (digits_val (ip @ fp), e - int (length fp))))"

text \<open>
  Rounding the positive fraction \<open>a / b\<close> to the nearest binary64 value, ties to even:
  \<open>e\<close> is the binary exponent of \<open>a / b\<close>, bounded below by the least normal exponent
  -1022, and the significand has 53 bits. A result of \<open>2^1024\<close> or more is an overflow,
  which \<^verbatim>\<open>float\<close> returns as an infinity.
\<close>

definition shift_frac :: "int \<Rightarrow> int \<Rightarrow> int \<Rightarrow> int \<times> int" where
  "shift_frac a b k = (a * 2 ^ nat (- k), b * 2 ^ nat k)"

definition round_half_even :: "int \<Rightarrow> int \<Rightarrow> int" where
  "round_half_even a b =
     (let q = a div b; r = a mod b
      in if 2 * r < b then q else if 2 * r > b then q + 1 else if even q then q else q + 1)"

definition round_double :: "bool \<Rightarrow> int \<Rightarrow> int \<Rightarrow> py_float" where
  "round_double neg a b =
     (if a = 0 then Finite 0 0
      else
        let d = bitlen a - bitlen b;
            e = (case shift_frac a b d of (a', b') \<Rightarrow> if b' \<le> a' then d else d - 1);
            k = max e (- 1022) - 52;
            n = (case shift_frac a b k of (a', b') \<Rightarrow> round_half_even a' b')
        in if 0 \<le> k \<and> 2 ^ 1024 \<le> n * 2 ^ nat k then Inf neg
           else Finite (if neg then - n else n) k)"

text \<open>
  \<^verbatim>\<open>float\<close> skips white space at both ends of an ASCII text, and its white space is
  narrower than that of \<^verbatim>\<open>str.strip\<close>: the codes 9-13 and 32 only, so that the
  separators 28-31 in front of a number make \<^verbatim>\<open>float\<close> raise.
\<close>

definition float_space :: "char \<Rightarrow> bool" where
  "float_space c = (let n = (of_char c :: nat) in (9 \<le> n \<and> n \<le> 13) \<or> n = 32)"

definition float_strip :: "string \<Rightarrow> string" where
  "float_strip s = rev (dropWhile float_space (rev (dropWhile float_space s)))"

text \<open>\<^verbatim>\<open>float(s)\<close> for a text \<open>s\<close>: \<^verbatim>\<open>ValueError\<close> when the text is no number.\<close>

definition py_float_of_str :: "string \<Rightarrow> py_error + py_float" where
  "py_float_of_str s0 =
     (case strip_underscores (CHR 0x00) s0 of
        None \<Rightarrow> Inl ValueError
      | Some s1 \<Rightarrow>
          let s = float_strip s1;
              (neg, body) =
                (case s of
                   [] \<Rightarrow> (False, [])
                 | c # cs \<Rightarrow> if c = CHR ''-'' then (True, cs)
                             else if c = CHR ''+'' then (False, cs) else (False, s));
              lb = lower body
          in if lb = ''inf'' \<or> lb = ''infinity'' then Inr (Inf neg)
             else if lb = ''nan'' then Inr NaN
             else (case parse_decimal body of
                     None \<Rightarrow> Inl ValueError
                   | Some (m, e) \<Rightarrow>
                       Inr (round_double neg (m * 10 ^ nat e) (10 ^ nat (- e)))))"

text \<open>
  \<^verbatim>\<open>int(x)\<close> for a float: truncation towards zero; \<^verbatim>\<open>ValueError\<close> for a NaN and
  \<^verbatim>\<open>OverflowError\<close> for an infinity.
\<close>

definition py_int_of_float :: "py_float \<Rightarrow> py_error + int" where
  "py_int_of_float x =
     (case x of
        Finite m k \<Rightarrow>
          Inr (if 0 \<le> k then m * 2 ^ nat k
               else if 0 \<le> m then m div 2 ^ nat (- k) else - ((- m) div 2 ^ nat (- k)))
      | Inf neg \<Rightarrow> Inl OverflowError
      | NaN \<Rightarrow> Inl ValueError)"

definition int_float :: "string \<Rightarrow> py_error + int" where
  "int_float s = (case py_float_of_str s of Inl e \<Rightarrow> Inl e | Inr x \<Rightarrow> py_int_of_float x)"

section \<open>The parser: \<^verbatim>\<open>parse_election_data\<close>\<close>

text \<open>
  The frame \<^verbatim>\<open>df_str\<close> is a list of rows, each a list of cell texts in column order; row
  labels are the positions 0, 1, ... (the frame comes from \<^verbatim>\<open>pd.read_excel\<close>). A row of
  \<^verbatim>\<open>section_data\<close> is a record; a \<^verbatim>\<open>DataFrame\<close> built from them is the list of its rows.
  \<^verbatim>\<open>councils_data\<close> is a Python dictionary: an association list in insertion order, where
  assigning to a key already present replaces its value in place.
\<close>

type_synonym row = "string list"
type_synonym grid = "row list"

record result_row =
  Party :: string
  Votes :: int
  Seats :: int

type_synonym table = "result_row list"
type_synonym result_set = "(string \<times> table) list"

text \<open>What \<^verbatim>\<open>st.write\<close> and \<^verbatim>\<open>st.error\<close> add to the page.\<close>

datatype diagnostic = Found nat "string list" | SectionError string py_error

subsection \<open>Finding the council sections\<close>

definition prefixes :: "string list" where
  "prefixes = map (\<lambda>i. str_nat i @ '' -'') [1..<24]"

definition literal_prefixes :: "string list" where
  "literal_prefixes = [''1 -'', ''2 -'', ''3 -'', ''4 -'', ''5 -'', ''6 -'', ''7 -'', ''8 -'',
     ''9 -'', ''10 -'', ''11 -'', ''12 -'', ''13 -'', ''14 -'', ''15 -'', ''16 -'', ''17 -'',
     ''18 -'', ''19 -'', ''20 -'', ''21 -'', ''22 -'', ''23 -'']"

text \<open>The test of one cell; \<open>cell_value\<close> is the stripped text of the cell.\<close>

definition is_council_title :: "string \<Rightarrow> bool" where
  "is_council_title cell_value =
     (let text = lower (strip cell_value)
      in startswith_any cell_value literal_prefixes \<and> startswith_any text prefixes \<and>
         (py_in ''council'' text \<or> py_in ''sabha'' text))"

text \<open>The loop over the columns of one row, left at the first cell that passes.\<close>

fun scan_columns :: "row \<Rightarrow> string option" where
  "scan_columns [] = None"
| "scan_columns (cell # cells) =
     (let cell_value = strip cell
      in if is_council_title cell_value then Some cell_value else scan_columns cells)"

text \<open>The loop over the rows; \<open>idx\<close> is the label of the first row of the list.\<close>

fun find_sections :: "nat \<Rightarrow> grid \<Rightarrow> (nat \<times> string) list" where
  "find_sections idx [] = []"
| "find_sections idx (row # rows) =
     (case scan_columns row of
        None \<Rightarrow> find_sections (Suc idx) rows
      | Some cell_value \<Rightarrow> (idx, cell_value) # find_sections (Suc idx) rows)"

definition council_sections :: "grid \<Rightarrow> (nat \<times> string) list" where
  "council_sections df_str = find_sections 0 df_str"

subsection \<open>One section\<close>

definition is_header_row :: "row \<Rightarrow> bool" where
  "is_header_row row =
     (let row_str = upper (join '' '' row)
      in py_in ''PARTY'' row_str \<and> py_in ''VOTES'' row_str \<and> py_in ''TOTAL'' row_str)"

text \<open>
  \<^verbatim>\<open>[cell for cell in row.values if cell not in ['nan', '', None]]\<close>; a cell of \<^verbatim>\<open>df_str\<close>
  is a text, never \<^verbatim>\<open>None\<close>.
\<close>

definition row_data :: "row \<Rightarrow> string list" where
  "row_data row = filter (\<lambda>cell. cell \<noteq> ''nan'' \<and> cell \<noteq> []) row"

text \<open>\<^verbatim>\<open>int(float(x)) if x != 'nan' else 0\<close>.\<close>

definition coerce :: "string \<Rightarrow> py_error + int" where
  "coerce x = (if x \<noteq> ''nan'' then int_float x else Inr 0)"

text \<open>\<^verbatim>\<open>except (ValueError, IndexError): continue\<close>.\<close>

definition row_handler_catches :: "py_error \<Rightarrow> bool" where
  "row_handler_catches e = (e = ValueError \<or> e = IndexError)"

text \<open>
  One row after the header: the records it appends to \<^verbatim>\<open>section_data\<close> (none or one), or
  the exception that leaves the row's \<^verbatim>\<open>try\<close> uncaught.
\<close>

definition collect_row :: "row \<Rightarrow> py_error + table" where
  "collect_row row =
     (let rd = row_data row
      in if length rd \<ge> 3 then
           (let party = rd ! 0
            in case coerce (rd ! 1) of
                 Inl e \<Rightarrow> if row_handler_catches e then Inr [] else Inl e
               | Inr votes \<Rightarrow>
                   (case coerce (rd ! 2) of
                      Inl e \<Rightarrow> if row_handler_catches e then Inr [] else Inl e
                    | Inr seats \<Rightarrow>
                        if upper party \<noteq> ''TOTAL''
                        then Inr [\<lparr>Party = party, Votes = votes, Seats = seats\<rparr>]
                        else Inr []))
         else Inr [])"

text \<open>The loop over the rows of a section after its title row.\<close>

fun scan_rows :: "row list \<Rightarrow> bool \<Rightarrow> table \<Rightarrow> py_error + table" where
  "scan_rows [] header_found section_data = Inr section_data"
| "scan_rows (row # rows) header_found section_data =
     (if \<not> header_found \<and> is_header_row row then scan_rows rows True section_data
      else if header_found then
        (case collect_row row of
           Inl e \<Rightarrow> Inl e
         | Inr new \<Rightarrow> scan_rows rows header_found (section_data @ new))
      else scan_rows rows header_found section_data)"

text \<open>The rows \<^verbatim>\<open>range(start_idx, end_idx)\<close> without the title row \<^verbatim>\<open>start_idx\<close>.\<close>

definition section_rows :: "grid \<Rightarrow> nat \<Rightarrow> nat \<Rightarrow> row list" where
  "section_rows df_str start_idx end_idx = drop (Suc start_idx) (take end_idx df_str)"

definition positive_votes :: "table \<Rightarrow> table" where
  "positive_votes council_df = filter (\<lambda>r. Votes r > 0) council_df"

text \<open>
  The body of the section's \<^verbatim>\<open>try\<close>: the table to store under the title, if any, or the
  exception raised.
\<close>

definition build_section :: "grid \<Rightarrow> nat \<Rightarrow> nat \<Rightarrow> py_error + table option" where
  "build_section df_str start_idx end_idx =
     (case scan_rows (section_rows df_str start_idx end_idx) False [] of
        Inl e \<Rightarrow> Inl e
      | Inr section_data \<Rightarrow>
          if section_data \<noteq> [] then Inr (Some (positive_votes section_data)) else Inr None)"

subsection \<open>All sections\<close>

text \<open>
  \<open>end_idx\<close>: the start of the next section, or the number of rows; \<open>rest\<close> are the
  sections after the current one.
\<close>

definition end_of :: "grid \<Rightarrow> (nat \<times> string) list \<Rightarrow> nat" where
  "end_of df_str rest = (case rest of [] \<Rightarrow> length df_str | (next_idx, _) # _ \<Rightarrow> next_idx)"

text \<open>
  The loop over the sections, on the dictionary and the page; \<^verbatim>\<open>except Exception\<close> reports
  the section and goes on.
\<close>

fun process_sections ::
  "grid \<Rightarrow> (nat \<times> string) list \<Rightarrow> result_set \<times> diagnostic list \<Rightarrow> result_set \<times> diagnostic list" where
  "process_sections df_str [] st = st"
| "process_sections df_str ((start_idx, council_name) # rest) (councils_data, page) =
     (case build_section df_str start_idx (end_of df_str rest) of
        Inl e \<Rightarrow> process_sections df_str rest (councils_data, page @ [SectionError council_name e])
      | Inr None \<Rightarrow> process_sections df_str rest (councils_data, page)
      | Inr (Some council_df) \<Rightarrow>
          process_sections df_str rest (AList.update council_name council_df councils_data, page))"

text \<open>The function takes the page as it is and returns the dictionary and the page.\<close>

definition parse_election_data :: "grid \<Rightarrow> diagnostic list \<Rightarrow> result_set \<times> diagnostic list" where
  "parse_election_data df_str page =
     (let sections = council_sections df_str
      in process_sections df_str sections
           ([], page @ [Found (length sections) (map snd sections)]))"

section \<open>Notions used to state the properties\<close>

text \<open>
  The sections with their row spans \<open>(start_idx, council_name, end_idx)\<close>, as the loop over
  the sections computes them, and what one span does to the dictionary and to the page.
\<close>

fun section_spans :: "grid \<Rightarrow> (nat \<times> string) list \<Rightarrow> (nat \<times> string \<times> nat) list" where
  "section_spans df_str [] = []"
| "section_spans df_str ((start_idx, council_name) # rest) =
     (start_idx, council_name, end_of df_str rest) # section_spans df_str rest"

definition store_table :: "grid \<Rightarrow> result_set \<Rightarrow> nat \<times> string \<times> nat \<Rightarrow> result_set" where
  "store_table df_str councils_data sec =
     (case sec of (start_idx, council_name, end_idx) \<Rightarrow>
        (case build_section df_str start_idx end_idx of
           Inl e \<Rightarrow> councils_data
         | Inr None \<Rightarrow> councils_data
         | Inr (Some council_df) \<Rightarrow> AList.update council_name council_df councils_data))"

definition section_fails :: "grid \<Rightarrow> nat \<times> string \<times> nat \<Rightarrow> bool" where
  "section_fails df_str sec =
     (case sec of (start_idx, council_name, end_idx) \<Rightarrow>
        isl (build_section df_str start_idx end_idx))"

definition section_report :: "grid \<Rightarrow> nat \<times> string \<times> nat \<Rightarrow> diagnostic list" where
  "section_report df_str sec =
     (case sec of (start_idx, council_name, end_idx) \<Rightarrow>
        (case build_section df_str start_idx end_idx of
           Inl e \<Rightarrow> [SectionError council_name e]
         | Inr council_df \<Rightarrow> []))"

text \<open>
  The header test in the words of the specification: the upper-cased concatenation of the
  cell texts contains the three tokens.
\<close>

definition spec_header_row :: "row \<Rightarrow> bool" where
  "spec_header_row row =
     (let row_str = upper (concat row)
      in py_in ''PARTY'' row_str \<and> py_in ''VOTES'' row_str \<and> py_in ''TOTAL'' row_str)"

text \<open>
  The title test in the words of the specification, on the trimmed text of a cell: it
  starts with \<open>N -\<close> for an integer \<open>N\<close> from 1 to 23 and contains, whatever the case,
  \<open>council\<close> or \<open>sabha\<close>; and the title of a row: the trimmed text of its first such cell.
\<close>

definition spec_title_cell :: "string \<Rightarrow> bool" where
  "spec_title_cell trimmed =
     (list_ex (\<lambda>N. startswith trimmed (str_nat N @ '' -'')) [1..<24] \<and>
      (py_in ''council'' (lower trimmed) \<or> py_in ''sabha'' (lower trimmed)))"

definition spec_row_title :: "row \<Rightarrow> string option" where
  "spec_row_title row = map_option strip (find (\<lambda>cell. spec_title_cell (strip cell)) row)"

subsection \<open>Example grids\<close>

text \<open>Scenario A of the specification.\<close>

definition scenario_A :: grid where
  "scenario_A =
     [[''1 - MANNAR URBAN COUNCIL'', '''', '''', ''''],
      [''Party'', ''Votes'', ''Total'', ''''],
      [''UNP'', ''1500'', ''2'', ''''],
      [''SLPP'', ''1000'', ''1'', ''''],
      [''TOTAL'', ''2500'', ''3'', ''''],
      [''2 - MANNAR PRADESHIYA SABHA'', '''', '''', ''''],
      [''Party'', ''Votes'', ''Total'', ''''],
      [''SLFP'', ''800'', ''1'', '''']]"

text \<open>A section whose only party has no votes.\<close>

definition grid_zero_votes :: grid where
  "grid_zero_votes =
     [[''1 - MANNAR URBAN COUNCIL'', ''nan'', ''nan''],
      [''Party'', ''Votes'', ''Total''],
      [''UNP'', ''0'', ''0'']]"

text \<open>A section with the votes text \<open>inf\<close> in one row, and a second section.\<close>

definition grid_inf_votes :: grid where
  "grid_inf_votes =
     [[''1 - MANNAR URBAN COUNCIL'', ''nan'', ''nan''],
      [''Party'', ''Votes'', ''Total''],
      [''UNP'', ''inf'', ''2''],
      [''SLPP'', ''1000'', ''1''],
      [''2 - MANNAR PRADESHIYA SABHA'', ''nan'', ''nan''],
      [''Party'', ''Votes'', ''Total''],
      [''SLFP'', ''800'', ''1'']]"

text \<open>Party cells with blanks around the name, a negative seats text.\<close>

definition grid_blanks :: grid where
  "grid_blanks =
     [[''1 - MANNAR URBAN COUNCIL'', ''nan'', ''nan''],
      [''Party'', ''Votes'', ''Total''],
      ['' UNP '', ''1500'', ''-2''],
      ['' TOTAL '', ''1500'', ''2'']]"

text \<open>A second row with the three labels, after the header row.\<close>

definition grid_two_headers :: grid where
  "grid_two_headers =
     [[''1 - MANNAR URBAN COUNCIL'', ''nan'', ''nan''],
      [''Party'', ''Votes'', ''Total''],
      [''Party votes total'', ''7'', ''1'']]"

text \<open>The three labels spread over the cells so that only their concatenation holds PARTY.\<close>

definition grid_split_header :: grid where
  "grid_split_header =
     [[''1 - MANNAR URBAN COUNCIL'', ''nan'', ''nan'', ''nan''],
      [''PAR'', ''TY'', ''VOTES'', ''TOTAL''],
      [''UNP'', ''1500'', ''2'', ''nan'']]"

text \<open>An empty row between the title row and the header row.\<close>

definition grid_gap :: grid where
  "grid_gap =
     [[''1 - MANNAR URBAN COUNCIL'', ''nan'', ''nan''],
      [''nan'', ''nan'', ''nan''],
      [''Party'', ''Votes'', ''Total''],
      [''UNP'', ''1500'', ''2'']]"

text \<open>
  A summary row whose word has blanks around it and stands in the second column, after an
  absent cell, between two party rows.
\<close>

definition grid_spaced_total :: grid where
  "grid_spaced_total =
     [[''1 - MANNAR URBAN COUNCIL'', ''nan'', ''nan'', ''nan''],
      [''nan'', ''nan'', ''nan'', ''nan''],
      [''Party'', ''Votes'', ''Total'', ''nan''],
      [''UNP'', ''1500'', ''2'', ''nan''],
      [''nan'', '' TOTAL '', ''2500'', ''3''],
      [''SLPP'', ''1000'', ''1'', ''nan'']]"

text \<open>
  Summary rows with blanks around the word and votes that parse: one with a seats text
  that is no number, one with two usable values only.
\<close>

definition grid_unparsable_seats :: grid where
  "grid_unparsable_seats =
     [[''1 - MANNAR URBAN COUNCIL'', ''nan'', ''nan''],
      [''Party'', ''Votes'', ''Total''],
      [''UNP'', ''1500'', ''2''],
      ['' TOTAL '', ''2500'', ''abc''],
      ['' TOTAL '', ''2500'', ''nan'']]"

section \<open>The loop over the sections as a fold\<close>

lemma fst_process_sections:
  "fst (process_sections df_str sections (councils_data, page)) =
     foldl (store_table df_str) councils_data (section_spans df_str sections)"
proof (induction sections arbitrary: councils_data page)
  case Nil
  show ?case by simp
next
  case (Cons sec rest)
  obtain start_idx council_name where sec: "sec = (start_idx, council_name)"
    by (cases sec)
  show ?case
    unfolding sec
    by (cases "build_section df_str start_idx (end_of df_str rest)")
       (simp_all add: Cons.IH store_table_def split: option.split)
qed

lemma snd_process_sections:
  "snd (process_sections df_str sections (councils_data, page)) =
     page @ concat (map (section_report df_str) (section_spans df_str sections))"
proof (induction sections arbitrary: councils_data page)
  case Nil
  show ?case by simp
next
  case (Cons sec rest)
  obtain start_idx council_name where sec: "sec = (start_idx, council_name)"
    by (cases sec)
  show ?case
    unfolding sec
    by (cases "build_section df_str start_idx (end_of df_str rest)")
       (simp_all add: Cons.IH section_report_def split: option.split)
qed

section \<open>White space around a number\<close>

text \<open>
  Blanks around a number are skipped; the separator 28, which \<^verbatim>\<open>str.strip\<close> removes, is
  not, and the text is no number for \<^verbatim>\<open>float\<close>.
\<close>

lemma int_float_white_space:
  "int_float '' 2500 '' = Inr 2500 \<and> strip [CHR 0x1C, CHR ''5''] = ''5'' \<and>
   int_float [CHR 0x1C, CHR ''5''] = Inl ValueError \<and>
   int_float [CHR 0x1C, CHR ''i'', CHR ''n'', CHR ''f''] = Inl ValueError"
  by code_simp

section \<open>Scenario A\<close>

text \<open>
  C5. On the grid of Scenario A the parser returns the two tables of the specification:
  UNP (1500, 2) and SLPP (1000, 1) under the first title, in that order and without the
  TOTAL row, and SLFP (800, 1) under the second title.
\<close>

theorem scenario_A_result:
  "fst (parse_election_data scenario_A page) =
     [(''1 - MANNAR URBAN COUNCIL'',
        [\<lparr>Party = ''UNP'', Votes = 1500, Seats = 2\<rparr>,
         \<lparr>Party = ''SLPP'', Votes = 1000, Seats = 1\<rparr>]),
      (''2 - MANNAR PRADESHIYA SABHA'',
        [\<lparr>Party = ''SLFP'', Votes = 800, Seats = 1\<rparr>])]"
  by code_simp

section \<open>Determinism\<close>

text \<open>
  C9. The dictionary returned for a grid does not depend on the page the call finds: two
  calls on the same grid return the same dictionary, also the second call of two in a row,
  which runs on the page the first call left.
\<close>

theorem parse_deterministic:
  "fst (parse_election_data df_str page) = fst (parse_election_data df_str page') \<and>
   fst (parse_election_data df_str (snd (parse_election_data df_str page))) =
     fst (parse_election_data df_str page)"
  by (simp add: parse_election_data_def Let_def fst_process_sections)

section \<open>Sections whose records all have zero votes\<close>

text \<open>
  C1. The code tests \<^verbatim>\<open>section_data\<close> before the rows without votes are removed: for a
  section whose only record has zero votes, the title is stored with an empty table.
\<close>

theorem zero_votes_section_stored:
  "fst (parse_election_data grid_zero_votes page) = [(''1 - MANNAR URBAN COUNCIL'', [])]"
  by code_simp

section \<open>A row whose number is infinite\<close>

text \<open>
  C3. \<^verbatim>\<open>int(float('inf'))\<close> raises \<^verbatim>\<open>OverflowError\<close>, which the handler of the row does
  not catch: the first section of the grid is left at the row of UNP, the valid row of SLPP
  is not read and the section has no table.
\<close>

theorem inf_votes_aborts_section:
  "parse_election_data grid_inf_votes [] =
     ([(''2 - MANNAR PRADESHIYA SABHA'', [\<lparr>Party = ''SLFP'', Votes = 800, Seats = 1\<rparr>])],
      [Found 2 [''1 - MANNAR URBAN COUNCIL'', ''2 - MANNAR PRADESHIYA SABHA''],
       SectionError ''1 - MANNAR URBAN COUNCIL'' OverflowError])"
  by code_simp

section \<open>Facts about the string functions\<close>

lemma of_char_lower_char:
  "(of_char (lower_char c) :: nat) =
     (if 65 \<le> (of_char c :: nat) \<and> (of_char c :: nat) \<le> 90 then of_char c + 32 else of_char c)"
  by (simp add: lower_char_def Let_def)

lemma of_char_upper_char:
  "(of_char (upper_char c) :: nat) =
     (if 97 \<le> (of_char c :: nat) \<and> (of_char c :: nat) \<le> 122 then of_char c - 32 else of_char c)"
  using nat_of_char_less_256 [of c] by (auto simp add: upper_char_def Let_def)

lemma upper_lower_char: "upper_char (lower_char c) = upper_char c"
proof -
  have "(of_char (upper_char (lower_char c)) :: nat) = of_char (upper_char c)"
    by (simp add: of_char_upper_char of_char_lower_char)
  then show ?thesis by simp
qed

lemma lower_upper_char: "lower_char (upper_char c) = lower_char c"
proof -
  have "(of_char (lower_char (upper_char c)) :: nat) = of_char (lower_char c)"
    by (auto simp add: of_char_upper_char of_char_lower_char)
  then show ?thesis by simp
qed

lemma upper_lower: "upper (lower s) = upper s"
  by (simp add: upper_def lower_def upper_lower_char)

lemma lower_upper: "lower (upper s) = lower s"
  by (simp add: upper_def lower_def lower_upper_char)

lemma upper_total: "upper ''total'' = ''TOTAL''"
  by code_simp

lemma lower_TOTAL: "lower ''TOTAL'' = ''total''"
  by code_simp

lemma upper_TOTAL_iff: "upper s = ''TOTAL'' \<longleftrightarrow> lower s = ''total''"
proof
  assume "upper s = ''TOTAL''"
  then have "lower (upper s) = lower ''TOTAL''" by (rule arg_cong)
  then show "lower s = ''total''" by (simp only: lower_upper lower_TOTAL)
next
  assume "lower s = ''total''"
  then have "upper (lower s) = upper ''total''" by (rule arg_cong)
  then show "upper s = ''TOTAL''" by (simp only: upper_lower upper_total)
qed

lemma lower_char_fixed:
  assumes "lower_char d = c" and "is_digit c \<or> c = CHR '' '' \<or> c = CHR ''-''"
  shows "d = c"
proof -
  have n: "(of_char c :: nat) \<le> 57"
    using assms(2) by (auto simp add: is_digit_def Let_def)
  have "(of_char (lower_char d) :: nat) = of_char c" using assms(1) by simp
  with n have "\<not> (65 \<le> (of_char d :: nat) \<and> (of_char d :: nat) \<le> 90)"
    by (auto simp add: of_char_lower_char split: if_splits)
  then have "lower_char d = d" by (auto simp add: lower_char_def Let_def)
  with assms(1) show ?thesis by simp
qed

lemma space_upper_char: "is_space c \<Longrightarrow> upper_char c = c"
  by (auto simp add: is_space_def upper_char_def Let_def)

lemma space_not_TOTAL: "is_space c \<Longrightarrow> upper_char c \<notin> set ''TOTAL''"
proof
  assume s: "is_space c" and "upper_char c \<in> set ''TOTAL''"
  then have "c \<in> set ''TOTAL''" by (simp add: space_upper_char)
  then have "\<not> is_space c" by (auto simp add: is_space_def)
  with s show False by simp
qed

lemma strip_no_space: "\<forall>c \<in> set s. \<not> is_space c \<Longrightarrow> strip s = s"
proof -
  assume a: "\<forall>c \<in> set s. \<not> is_space c"
  then have 1: "dropWhile is_space s = s" by (cases s) auto
  from a have "\<forall>c \<in> set (rev s). \<not> is_space c" by simp
  then have 2: "dropWhile is_space (rev s) = rev s" by (cases "rev s") auto
  show ?thesis by (simp add: strip_def 1 2)
qed

lemma upper_TOTAL_no_space:
  assumes "upper s = ''TOTAL''" shows "strip s = s"
proof (rule strip_no_space, rule ballI)
  fix c assume "c \<in> set s"
  then have "upper_char c \<in> set (upper s)" by (simp add: upper_def)
  then have "upper_char c \<in> set ''TOTAL''" by (simp only: assms)
  then show "\<not> is_space c" using space_not_TOTAL by blast
qed

lemma dropWhile_rev_strip: "dropWhile is_space (rev (strip s)) = rev (strip s)"
  by (simp add: strip_def)

lemma strip_idem: "strip (strip s) = strip s"
proof -
  define u where "u = dropWhile is_space s"
  define t where "t = rev (dropWhile is_space (rev u))"
  have t: "strip s = t" by (simp add: strip_def t_def u_def)
  have "dropWhile is_space t = t"
  proof (cases t)
    case Nil
    then show ?thesis by simp
  next
    case (Cons a w)
    have "u = t @ rev (takeWhile is_space (rev u))"
      unfolding t_def by (metis rev_append rev_rev_ident takeWhile_dropWhile_id)
    then obtain v where "u = t @ v" ..
    with Cons have ua: "u = a # (w @ v)" by simp
    then have "hd u = a" and "u \<noteq> []" by simp_all
    moreover from \<open>u \<noteq> []\<close> have "\<not> is_space (hd u)"
      unfolding u_def by (rule hd_dropWhile)
    ultimately have "\<not> is_space a" by simp
    with Cons show ?thesis by simp
  qed
  moreover have "dropWhile is_space (rev t) = rev t" by (simp add: t_def)
  ultimately have "strip t = t" by (simp add: strip_def)
  then show ?thesis by (simp only: t)
qed


section \<open>Where the records of a table come from\<close>

lemma set_update_subset: "set (AList.update k v al) \<subseteq> insert (k, v) (set al)"
  by (induction al) auto

lemma row_data_member: "c \<in> set (row_data row) \<Longrightarrow> c \<noteq> ''nan'' \<and> c \<noteq> []"
  by (simp add: row_data_def)

lemma collect_row_cases:
  assumes "collect_row row = Inr new" and "r \<in> set new"
  shows "3 \<le> length (row_data row) \<and> upper (row_data row ! 0) \<noteq> ''TOTAL'' \<and>
         coerce (row_data row ! 1) = Inr (Votes r) \<and> coerce (row_data row ! 2) = Inr (Seats r) \<and>
         Party r = row_data row ! 0 \<and> new = [r]"
  using assms
  by (auto simp add: collect_row_def Let_def split: if_splits sum.splits)

lemma collect_row_party:
  assumes "collect_row row = Inr new" and "r \<in> set new"
  shows "Party r \<noteq> [] \<and> Party r \<noteq> ''nan'' \<and> upper (Party r) \<noteq> ''TOTAL''"
proof -
  from collect_row_cases [OF assms]
  have len: "3 \<le> length (row_data row)" and up: "upper (row_data row ! 0) \<noteq> ''TOTAL''"
    and p: "Party r = row_data row ! 0" by simp_all
  from len have "0 < length (row_data row)" by linarith
  then have "row_data row ! 0 \<in> set (row_data row)" by (rule nth_mem)
  then have "row_data row ! 0 \<noteq> ''nan'' \<and> row_data row ! 0 \<noteq> []" by (rule row_data_member)
  with up p show ?thesis by simp
qed

lemma scan_rows_records:
  "scan_rows rows header_found acc = Inr out \<Longrightarrow> r \<in> set out \<Longrightarrow>
     r \<in> set acc \<or> (\<exists>row \<in> set rows. \<exists>new. collect_row row = Inr new \<and> r \<in> set new)"
proof (induction rows arbitrary: header_found acc)
  case Nil
  then show ?case by simp
next
  case (Cons row rows)
  show ?case
  proof (cases "\<not> header_found \<and> is_header_row row")
    case True
    with Cons.prems have "scan_rows rows True acc = Inr out" by simp
    from Cons.IH [OF this Cons.prems(2)] show ?thesis by auto
  next
    case False
    note nh = this
    show ?thesis
    proof (cases header_found)
      case False
      with nh Cons.prems have "scan_rows rows header_found acc = Inr out" by simp
      from Cons.IH [OF this Cons.prems(2)] show ?thesis by auto
    next
      case True
      with Cons.prems obtain new where new: "collect_row row = Inr new"
        and rest: "scan_rows rows header_found (acc @ new) = Inr out"
        by (auto split: sum.splits)
      from Cons.IH [OF rest Cons.prems(2)] new show ?thesis by auto
    qed
  qed
qed

lemma build_section_records:
  assumes "build_section df_str start_idx end_idx = Inr (Some council_df)"
    and "r \<in> set council_df"
  shows "0 < Votes r \<and>
         (\<exists>row \<in> set (section_rows df_str start_idx end_idx). \<exists>new.
            collect_row row = Inr new \<and> r \<in> set new)"
proof -
  from assms(1) obtain section_data
    where sd: "scan_rows (section_rows df_str start_idx end_idx) False [] = Inr section_data"
      and df: "council_df = positive_votes section_data"
    by (auto simp add: build_section_def split: sum.splits if_splits)
  from assms(2) df have v: "0 < Votes r" and m: "r \<in> set section_data"
    by (simp_all add: positive_votes_def)
  from scan_rows_records [OF sd m] v show ?thesis by simp
qed

lemma foldl_store_entries:
  "(name, council_df) \<in> set (foldl (store_table df_str) councils_data secs) \<Longrightarrow>
     (name, council_df) \<in> set councils_data \<or>
     (\<exists>start_idx end_idx. (start_idx, name, end_idx) \<in> set secs \<and>
        build_section df_str start_idx end_idx = Inr (Some council_df))"
proof (induction secs arbitrary: councils_data)
  case Nil
  then show ?case by simp
next
  case (Cons sec secs)
  obtain s n e where sec: "sec = (s, n, e)" by (cases sec)
  from Cons.prems
  have "(name, council_df) \<in> set (foldl (store_table df_str) (store_table df_str councils_data sec) secs)"
    by simp
  from Cons.IH [OF this] show ?case
  proof
    assume a: "(name, council_df) \<in> set (store_table df_str councils_data sec)"
    show ?thesis
    proof (cases "build_section df_str s e")
      case (Inl err)
      with a sec show ?thesis by (simp add: store_table_def)
    next
      case (Inr res)
      show ?thesis
      proof (cases res)
        case None
        with a sec Inr show ?thesis by (simp add: store_table_def)
      next
        case (Some t)
        with a sec Inr have "(name, council_df) \<in> set (AList.update n t councils_data)"
          by (simp add: store_table_def)
        with set_update_subset [of n t councils_data]
        have "(name, council_df) = (n, t) \<or> (name, council_df) \<in> set councils_data" by auto
        with sec Inr Some show ?thesis by auto
      qed
    qed
  next
    assume "\<exists>start_idx end_idx. (start_idx, name, end_idx) \<in> set secs \<and>
        build_section df_str start_idx end_idx = Inr (Some council_df)"
    then show ?thesis by auto
  qed
qed

lemma parse_entries:
  assumes "(name, council_df) \<in> set (fst (parse_election_data df_str page))"
  shows "\<exists>start_idx end_idx.
           (start_idx, name, end_idx) \<in> set (section_spans df_str (council_sections df_str)) \<and>
           build_section df_str start_idx end_idx = Inr (Some council_df)"
  using assms foldl_store_entries [of name council_df df_str "[]"]
  by (simp add: parse_election_data_def Let_def fst_process_sections)

section \<open>The records of the tables\<close>

text \<open>
  C4. Every record of every table of the returned dictionary has votes greater than 0,
  and its party is not TOTAL in any case of the letters: the upper-cased party differs from
  \<open>TOTAL\<close>, and so the lower-cased party from \<open>total\<close>.
\<close>

theorem records_positive_not_total:
  assumes "(title, council_df) \<in> set (fst (parse_election_data df_str page))"
    and "r \<in> set council_df"
  shows "0 < Votes r \<and> upper (Party r) \<noteq> ''TOTAL'' \<and> lower (Party r) \<noteq> ''total''"
proof -
  from parse_entries [OF assms(1)] obtain start_idx end_idx
    where "build_section df_str start_idx end_idx = Inr (Some council_df)" by blast
  from build_section_records [OF this assms(2)] obtain row new
    where v: "0 < Votes r" and "collect_row row = Inr new" and "r \<in> set new" by blast
  from collect_row_party [OF this(2,3)] have "upper (Party r) \<noteq> ''TOTAL''" by simp
  with v show ?thesis by (simp add: upper_TOTAL_iff)
qed

theorem records_positive_not_total_witness:
  "(''2 - MANNAR PRADESHIYA SABHA'', [\<lparr>Party = ''SLFP'', Votes = 800, Seats = 1\<rparr>])
     \<in> set (fst (parse_election_data scenario_A [])) \<and>
   \<lparr>Party = ''SLFP'', Votes = 800, Seats = 1\<rparr> \<in> set [\<lparr>Party = ''SLFP'', Votes = 800, Seats = 1\<rparr>] \<and>
   0 < Votes \<lparr>Party = ''SLFP'', Votes = 800, Seats = 1\<rparr> \<and>
   upper (Party \<lparr>Party = ''SLFP'', Votes = 800, Seats = 1\<rparr>) \<noteq> ''TOTAL'' \<and>
   lower (Party \<lparr>Party = ''SLFP'', Votes = 800, Seats = 1\<rparr>) \<noteq> ''total''"
proof -
  have h1: "(''2 - MANNAR PRADESHIYA SABHA'', [\<lparr>Party = ''SLFP'', Votes = 800, Seats = 1\<rparr>])
     \<in> set (fst (parse_election_data scenario_A []))"
    by code_simp
  have h2: "\<lparr>Party = ''SLFP'', Votes = 800, Seats = 1\<rparr> \<in> set [\<lparr>Party = ''SLFP'', Votes = 800, Seats = 1\<rparr>]"
    by simp
  from records_positive_not_total [OF h1 h2] h1 h2 show ?thesis by blast
qed

text \<open>
  C2, as the code has it. Every record of every table of the returned dictionary has a
  party that is not empty and is not the text \<open>nan\<close>, and votes greater than 0. The
  party is the cell text as it stands, blanks included, and the seats may be negative.
\<close>

theorem records_party_votes:
  assumes "(title, council_df) \<in> set (fst (parse_election_data df_str page))"
    and "r \<in> set council_df"
  shows "Party r \<noteq> [] \<and> Party r \<noteq> ''nan'' \<and> 0 < Votes r"
proof -
  from parse_entries [OF assms(1)] obtain start_idx end_idx
    where "build_section df_str start_idx end_idx = Inr (Some council_df)" by blast
  from build_section_records [OF this assms(2)] obtain row new
    where v: "0 < Votes r" and "collect_row row = Inr new" and "r \<in> set new" by blast
  from collect_row_party [OF this(2,3)] v show ?thesis by simp
qed

text \<open>
  The table of \<open>grid_blanks\<close> holds a record whose party has blanks around it and whose
  seats are negative.
\<close>

theorem records_not_trimmed_negative_seats:
  "(''1 - MANNAR URBAN COUNCIL'',
     [\<lparr>Party = '' UNP '', Votes = 1500, Seats = - 2\<rparr>,
      \<lparr>Party = '' TOTAL '', Votes = 1500, Seats = 2\<rparr>])
     \<in> set (fst (parse_election_data grid_blanks [])) \<and>
   strip (Party \<lparr>Party = '' UNP '', Votes = 1500, Seats = - 2\<rparr>) \<noteq>
     Party \<lparr>Party = '' UNP '', Votes = 1500, Seats = - 2\<rparr> \<and>
   Seats \<lparr>Party = '' UNP '', Votes = 1500, Seats = - 2\<rparr> < 0"
  by code_simp

theorem records_party_votes_witness:
  "(''1 - MANNAR URBAN COUNCIL'',
     [\<lparr>Party = ''UNP'', Votes = 1500, Seats = 2\<rparr>,
      \<lparr>Party = ''SLPP'', Votes = 1000, Seats = 1\<rparr>])
     \<in> set (fst (parse_election_data scenario_A [])) \<and>
   \<lparr>Party = ''SLPP'', Votes = 1000, Seats = 1\<rparr>
     \<in> set [\<lparr>Party = ''UNP'', Votes = 1500, Seats = 2\<rparr>,
             \<lparr>Party = ''SLPP'', Votes = 1000, Seats = 1\<rparr>] \<and>
   Party \<lparr>Party = ''SLPP'', Votes = 1000, Seats = 1\<rparr> \<noteq> [] \<and>
   Party \<lparr>Party = ''SLPP'', Votes = 1000, Seats = 1\<rparr> \<noteq> ''nan'' \<and>
   0 < Votes \<lparr>Party = ''SLPP'', Votes = 1000, Seats = 1\<rparr>"
proof -
  have h1: "(''1 - MANNAR URBAN COUNCIL'',
     [\<lparr>Party = ''UNP'', Votes = 1500, Seats = 2\<rparr>,
      \<lparr>Party = ''SLPP'', Votes = 1000, Seats = 1\<rparr>])
     \<in> set (fst (parse_election_data scenario_A []))"
    by code_simp
  have h2: "\<lparr>Party = ''SLPP'', Votes = 1000, Seats = 1\<rparr>
     \<in> set [\<lparr>Party = ''UNP'', Votes = 1500, Seats = 2\<rparr>,
             \<lparr>Party = ''SLPP'', Votes = 1000, Seats = 1\<rparr>]"
    by simp
  from records_party_votes [OF h1 h2] h1 h2 show ?thesis by blast
qed

section \<open>The header row\<close>

lemma scan_rows_before_header:
  "\<forall>r \<in> set pre. \<not> is_header_row r \<Longrightarrow>
     scan_rows (pre @ rest) False acc = scan_rows rest False acc"
  by (induction pre) simp_all

text \<open>
  C6, as the code has it. In the rows of a section after its title row, the header row is
  the first row whose cell texts, joined with single blanks and upper-cased, contain
  \<open>PARTY\<close>, \<open>VOTES\<close> and \<open>TOTAL\<close>. When no row passes this test the section
  raises no error and stores no table. When \<open>h\<close> is the first row that passes, the table
  is built from the rows after \<open>h\<close> alone: the rows before it and \<open>h\<close> itself emit no
  record. Every row after the header row is read as a data row, whether or not it passes
  the test.
\<close>

theorem header_row_first_match:
  assumes "\<forall>r \<in> set pre. \<not> is_header_row r"
  shows "(section_rows df_str start_idx end_idx = pre \<longrightarrow>
            build_section df_str start_idx end_idx = Inr None) \<and>
         (section_rows df_str start_idx end_idx = pre @ h # post \<and> is_header_row h \<longrightarrow>
            build_section df_str start_idx end_idx =
              (case scan_rows post True [] of
                 Inl e \<Rightarrow> Inl e
               | Inr section_data \<Rightarrow>
                   if section_data \<noteq> [] then Inr (Some (positive_votes section_data))
                   else Inr None)) \<and>
         scan_rows (row # rows) True acc =
           (case collect_row row of
              Inl e \<Rightarrow> Inl e
            | Inr new \<Rightarrow> scan_rows rows True (acc @ new))"
proof (intro conjI impI)
  assume "section_rows df_str start_idx end_idx = pre"
  moreover from assms have "scan_rows (pre @ []) False [] = scan_rows [] False []"
    by (rule scan_rows_before_header)
  ultimately show "build_section df_str start_idx end_idx = Inr None"
    by (simp add: build_section_def)
next
  assume a: "section_rows df_str start_idx end_idx = pre @ h # post \<and> is_header_row h"
  from assms have "scan_rows (pre @ h # post) False [] = scan_rows (h # post) False []"
    by (rule scan_rows_before_header)
  with a have "scan_rows (section_rows df_str start_idx end_idx) False [] = scan_rows post True []"
    by simp
  then show "build_section df_str start_idx end_idx =
              (case scan_rows post True [] of
                 Inl e \<Rightarrow> Inl e
               | Inr section_data \<Rightarrow>
                   if section_data \<noteq> [] then Inr (Some (positive_votes section_data))
                   else Inr None)"
    by (simp add: build_section_def)
next
  show "scan_rows (row # rows) True acc =
           (case collect_row row of
              Inl e \<Rightarrow> Inl e
            | Inr new \<Rightarrow> scan_rows rows True (acc @ new))"
    by simp
qed

theorem header_row_first_match_witness:
  "\<not> is_header_row [''PAR'', ''TY'', ''VOTES'', ''TOTAL''] \<and>
   \<not> is_header_row [''UNP'', ''1500'', ''2'', ''nan''] \<and>
   section_rows grid_split_header 0 3 =
     [[''PAR'', ''TY'', ''VOTES'', ''TOTAL''], [''UNP'', ''1500'', ''2'', ''nan'']] \<and>
   build_section grid_split_header 0 3 = Inr None \<and>
   \<not> is_header_row [''nan'', ''nan'', ''nan''] \<and>
   section_rows grid_gap 0 4 =
     [[''nan'', ''nan'', ''nan'']] @ [''Party'', ''Votes'', ''Total''] # [[''UNP'', ''1500'', ''2'']] \<and>
   is_header_row [''Party'', ''Votes'', ''Total''] \<and>
   build_section grid_gap 0 4 = Inr (Some [\<lparr>Party = ''UNP'', Votes = 1500, Seats = 2\<rparr>])"
proof -
  have a0: "\<not> is_header_row [''PAR'', ''TY'', ''VOTES'', ''TOTAL''] \<and>
      \<not> is_header_row [''UNP'', ''1500'', ''2'', ''nan'']"
    by code_simp
  then have a1: "\<forall>r \<in> set [[''PAR'', ''TY'', ''VOTES'', ''TOTAL''], [''UNP'', ''1500'', ''2'', ''nan'']].
      \<not> is_header_row r"
    by simp
  have a2: "section_rows grid_split_header 0 3 =
     [[''PAR'', ''TY'', ''VOTES'', ''TOTAL''], [''UNP'', ''1500'', ''2'', ''nan'']]"
    by code_simp
  have b0: "\<not> is_header_row [''nan'', ''nan'', ''nan'']"
    by code_simp
  then have b1: "\<forall>r \<in> set [[''nan'', ''nan'', ''nan'']]. \<not> is_header_row r"
    by simp
  have b2: "section_rows grid_gap 0 4 =
     [[''nan'', ''nan'', ''nan'']] @ [''Party'', ''Votes'', ''Total''] # [[''UNP'', ''1500'', ''2'']]"
    by code_simp
  have b3: "is_header_row [''Party'', ''Votes'', ''Total'']"
    by code_simp
  have b4: "scan_rows [[''UNP'', ''1500'', ''2'']] True [] =
    Inr [\<lparr>Party = ''UNP'', Votes = 1500, Seats = 2\<rparr>]"
    by code_simp
  have b5: "positive_votes [\<lparr>Party = ''UNP'', Votes = 1500, Seats = 2\<rparr>] =
    [\<lparr>Party = ''UNP'', Votes = 1500, Seats = 2\<rparr>]"
    by (simp add: positive_votes_def)
  from header_row_first_match [OF a1, of grid_split_header 0 3] a2
  have a: "build_section grid_split_header 0 3 = Inr None" by blast
  from header_row_first_match [OF b1, of grid_gap 0 4 "[''Party'', ''Votes'', ''Total'']"
      "[[''UNP'', ''1500'', ''2'']]"] b2 b3
  have "build_section grid_gap 0 4 =
     (case scan_rows [[''UNP'', ''1500'', ''2'']] True [] of
        Inl e \<Rightarrow> Inl e
      | Inr section_data \<Rightarrow>
          if section_data \<noteq> [] then Inr (Some (positive_votes section_data)) else Inr None)"
    by blast
  then have b: "build_section grid_gap 0 4 = Inr (Some [\<lparr>Party = ''UNP'', Votes = 1500, Seats = 2\<rparr>])"
    by (simp only: b4 b5 sum.case list.simps if_True not_False_eq_True)
  from a0 a2 a b0 b2 b3 b show ?thesis by blast
qed

text \<open>
  The row PAR, TY, VOTES, TOTAL passes the test on the concatenation of its cells, but it
  is no header row for the code, and its section has no table. The second row of
  \<open>grid_two_headers\<close> with the three labels passes both tests, and is stored as a record.
\<close>

theorem header_row_counterexample:
  "spec_header_row [''PAR'', ''TY'', ''VOTES'', ''TOTAL''] \<and>
   \<not> is_header_row [''PAR'', ''TY'', ''VOTES'', ''TOTAL''] \<and>
   fst (parse_election_data grid_split_header []) = [] \<and>
   spec_header_row [''Party votes total'', ''7'', ''1''] \<and>
   is_header_row [''Party votes total'', ''7'', ''1''] \<and>
   fst (parse_election_data grid_two_headers []) =
     [(''1 - MANNAR URBAN COUNCIL'', [\<lparr>Party = ''Party votes total'', Votes = 7, Seats = 1\<rparr>])]"
  by code_simp

section \<open>Sections that raise\<close>

lemma foldl_store_skip_failed:
  "foldl (store_table df_str) councils_data (filter (\<lambda>sec. \<not> section_fails df_str sec) secs) =
   foldl (store_table df_str) councils_data secs"
proof (induction secs arbitrary: councils_data)
  case Nil
  show ?case by simp
next
  case (Cons sec secs)
  obtain s n e where sec: "sec = (s, n, e)" by (cases sec)
  show ?case
  proof (cases "section_fails df_str sec")
    case True
    with sec have "store_table df_str councils_data sec = councils_data"
      by (cases "build_section df_str s e") (simp_all add: section_fails_def store_table_def)
    with True Cons.IH show ?thesis by simp
  next
    case False
    with Cons.IH show ?thesis by simp
  qed
qed

text \<open>
  C8. An exception raised in a section stays in that section. The returned dictionary is
  what the sections that raise nothing store, in their order, each on the row span it has
  among all the sections found; the page gets the count of the sections and one report for
  each section that raised; and after a section that raises, the loop goes on with the
  sections after it, on the dictionary as it was. The function returns this pair for every
  grid.
\<close>

theorem section_failures_contained:
  "fst (parse_election_data df_str page) =
     foldl (store_table df_str) []
       (filter (\<lambda>sec. \<not> section_fails df_str sec)
          (section_spans df_str (council_sections df_str))) \<and>
   snd (parse_election_data df_str page) =
     page @ Found (length (council_sections df_str)) (map snd (council_sections df_str)) #
       concat (map (section_report df_str) (section_spans df_str (council_sections df_str))) \<and>
   (build_section df_str start_idx (end_of df_str rest) = Inl e \<longrightarrow>
      process_sections df_str ((start_idx, council_name) # rest) (councils_data, page) =
        process_sections df_str rest (councils_data, page @ [SectionError council_name e]))"
  by (simp add: parse_election_data_def Let_def fst_process_sections snd_process_sections
      foldl_store_skip_failed)

theorem section_failures_contained_witness:
  "build_section grid_inf_votes 0 (end_of grid_inf_votes [(4, ''2 - MANNAR PRADESHIYA SABHA'')]) =
     Inl OverflowError \<and>
   process_sections grid_inf_votes
     [(0, ''1 - MANNAR URBAN COUNCIL''), (4, ''2 - MANNAR PRADESHIYA SABHA'')] ([], []) =
     ([(''2 - MANNAR PRADESHIYA SABHA'', [\<lparr>Party = ''SLFP'', Votes = 800, Seats = 1\<rparr>])],
      [SectionError ''1 - MANNAR URBAN COUNCIL'' OverflowError])"
proof -
  have h: "build_section grid_inf_votes 0 (end_of grid_inf_votes [(4, ''2 - MANNAR PRADESHIYA SABHA'')]) =
     Inl OverflowError"
    by code_simp
  have r: "process_sections grid_inf_votes [(4, ''2 - MANNAR PRADESHIYA SABHA'')]
      ([], [] @ [SectionError ''1 - MANNAR URBAN COUNCIL'' OverflowError]) =
     ([(''2 - MANNAR PRADESHIYA SABHA'', [\<lparr>Party = ''SLFP'', Votes = 800, Seats = 1\<rparr>])],
      [SectionError ''1 - MANNAR URBAN COUNCIL'' OverflowError])"
    by code_simp
  from section_failures_contained [of grid_inf_votes "[]" 0 "[(4, ''2 - MANNAR PRADESHIYA SABHA'')]"
      OverflowError "''1 - MANNAR URBAN COUNCIL''" "[]"] h
  have "process_sections grid_inf_votes
     [(0, ''1 - MANNAR URBAN COUNCIL''), (4, ''2 - MANNAR PRADESHIYA SABHA'')] ([], []) =
     process_sections grid_inf_votes [(4, ''2 - MANNAR PRADESHIYA SABHA'')]
      ([], [] @ [SectionError ''1 - MANNAR URBAN COUNCIL'' OverflowError])"
    by blast
  with h r show ?thesis by simp
qed

section \<open>Finding the sections\<close>

lemma lower_char_id:
  "is_digit c \<or> c = CHR '' '' \<or> c = CHR ''-'' \<Longrightarrow> lower_char c = c"
  by (auto simp add: lower_char_def is_digit_def Let_def)

lemma startswith_lower:
  "\<forall>c \<in> set p. is_digit c \<or> c = CHR '' '' \<or> c = CHR ''-'' \<Longrightarrow>
     startswith (lower s) p = startswith s p"
proof (induction s p rule: startswith.induct)
  case (1 s)
  show ?case by simp
next
  case (2 p ps)
  show ?case by (simp add: lower_def)
next
  case (3 c cs p ps)
  from "3.prems" have p: "is_digit p \<or> p = CHR '' '' \<or> p = CHR ''-''" by simp
  have "lower_char c = p \<longleftrightarrow> c = p"
    using lower_char_fixed [of c p] lower_char_id [of p] p by metis
  moreover from "3.prems" "3.IH" have "startswith (lower cs) ps = startswith cs ps" by simp
  ultimately show ?case by (simp add: lower_def)
qed

lemma prefixes_chars:
  "\<forall>p \<in> set prefixes. \<forall>c \<in> set p. is_digit c \<or> c = CHR '' '' \<or> c = CHR ''-''"
  by code_simp

lemma prefixes_literal: "literal_prefixes = prefixes"
  by code_simp

lemma startswith_any_lower: "startswith_any (lower s) prefixes = startswith_any s prefixes"
  using prefixes_chars by (auto simp add: startswith_any_def list_ex_iff startswith_lower)

lemma startswith_any_prefixes:
  "startswith_any s prefixes = list_ex (\<lambda>N. startswith s (str_nat N @ '' -'')) [1..<24]"
  by (simp add: startswith_any_def prefixes_def list_ex_iff)

lemma is_council_title_spec: "is_council_title (strip cell) = spec_title_cell (strip cell)"
proof -
  have "is_council_title (strip cell) =
      (startswith_any (strip cell) prefixes \<and> startswith_any (lower (strip cell)) prefixes \<and>
       (py_in ''council'' (lower (strip cell)) \<or> py_in ''sabha'' (lower (strip cell))))"
    by (simp add: is_council_title_def Let_def strip_idem prefixes_literal)
  also have "\<dots> =
      (startswith_any (strip cell) prefixes \<and>
       (py_in ''council'' (lower (strip cell)) \<or> py_in ''sabha'' (lower (strip cell))))"
    by (auto simp add: startswith_any_lower)
  also have "\<dots> = spec_title_cell (strip cell)"
    by (simp add: spec_title_cell_def startswith_any_prefixes)
  finally show ?thesis .
qed

lemma scan_columns_spec: "scan_columns row = spec_row_title row"
  by (induction row) (simp_all add: spec_row_title_def Let_def is_council_title_spec)

lemma find_sections_iff:
  "(i, t) \<in> set (find_sections k rows) \<longleftrightarrow>
     k \<le> i \<and> i < k + length rows \<and> spec_row_title (rows ! (i - k)) = Some t"
proof (induction rows arbitrary: k)
  case Nil
  show ?case by simp
next
  case (Cons row rows)
  have tl: "(i, t) \<in> set (find_sections (Suc k) rows) \<longleftrightarrow>
     k < i \<and> i < Suc k + length rows \<and> spec_row_title ((row # rows) ! (i - k)) = Some t"
  proof (cases "k < i")
    case True
    then have "(row # rows) ! (i - k) = rows ! (i - Suc k)" by (simp add: nth_Cons')
    with True Cons.IH [of "Suc k"] show ?thesis by auto
  next
    case False
    with Cons.IH [of "Suc k"] show ?thesis by auto
  qed
  show ?case
  proof (cases "scan_columns row")
    case None
    then have "spec_row_title row = None" by (simp add: scan_columns_spec)
    then have "i = k \<Longrightarrow> spec_row_title ((row # rows) ! (i - k)) \<noteq> Some t" by simp
    with None tl show ?thesis by (auto simp add: le_less)
  next
    case (Some cell_value)
    then have s: "spec_row_title row = Some cell_value" by (simp add: scan_columns_spec)
    have "(i, t) \<in> set (find_sections k (row # rows)) \<longleftrightarrow>
          (i = k \<and> t = cell_value) \<or> (i, t) \<in> set (find_sections (Suc k) rows)"
      using Some by auto
    also have "\<dots> \<longleftrightarrow> (i = k \<and> spec_row_title ((row # rows) ! (i - k)) = Some t) \<or>
          (k < i \<and> i < Suc k + length rows \<and> spec_row_title ((row # rows) ! (i - k)) = Some t)"
      using s tl by auto
    also have "\<dots> \<longleftrightarrow> k \<le> i \<and> i < k + length (row # rows) \<and>
          spec_row_title ((row # rows) ! (i - k)) = Some t"
      by auto
    finally show ?thesis .
  qed
qed

lemma find_sections_sorted: "sorted_wrt (<) (map fst (find_sections k rows))"
proof (induction rows arbitrary: k)
  case Nil
  show ?case by simp
next
  case (Cons row rows)
  have "\<forall>x \<in> set (find_sections (Suc k) rows). k < fst x"
  proof
    fix x assume "x \<in> set (find_sections (Suc k) rows)"
    then have "(fst x, snd x) \<in> set (find_sections (Suc k) rows)" by simp
    then show "k < fst x" by (simp only: find_sections_iff) simp
  qed
  with Cons.IH [of "Suc k"] show ?case
    by (cases "scan_columns row") simp_all
qed

text \<open>
  C7. A row is recorded as a section start exactly when some cell of it, trimmed, starts
  with \<open>N -\<close> for an integer \<open>N\<close> from 1 to 23 and contains \<open>council\<close> or \<open>sabha\<close> in any
  case; the title recorded is the trimmed text of the first such cell in column order, the
  cells after it playing no part; and the sections are listed in ascending row order.
\<close>

theorem sections_detected:
  "((idx, title) \<in> set (council_sections df_str) \<longleftrightarrow>
      idx < length df_str \<and> spec_row_title (df_str ! idx) = Some title) \<and>
   sorted_wrt (<) (map fst (council_sections df_str)) \<and>
   (spec_row_title row \<noteq> None \<longleftrightarrow> (\<exists>cell \<in> set row. spec_title_cell (strip cell)))"
proof (intro conjI)
  show "(idx, title) \<in> set (council_sections df_str) \<longleftrightarrow>
      idx < length df_str \<and> spec_row_title (df_str ! idx) = Some title"
    by (simp add: council_sections_def find_sections_iff)
  show "sorted_wrt (<) (map fst (council_sections df_str))"
    by (simp add: council_sections_def find_sections_sorted)
  show "spec_row_title row \<noteq> None \<longleftrightarrow> (\<exists>cell \<in> set row. spec_title_cell (strip cell))"
    by (auto simp add: spec_row_title_def find_None_iff)
qed

section \<open>The summary row with blanks around the word\<close>

lemma scan_rows_keeps_acc:
  "scan_rows rows header_found acc = Inr out \<Longrightarrow> set acc \<subseteq> set out"
proof (induction rows arbitrary: header_found acc)
  case Nil
  then show ?case by simp
next
  case (Cons row rows)
  show ?case
  proof (cases "\<not> header_found \<and> is_header_row row")
    case True
    with Cons.prems have "scan_rows rows True acc = Inr out" by simp
    then show ?thesis by (rule Cons.IH)
  next
    case False
    note nh = this
    show ?thesis
    proof (cases header_found)
      case False
      with nh Cons.prems have "scan_rows rows header_found acc = Inr out" by simp
      then show ?thesis by (rule Cons.IH)
    next
      case True
      with Cons.prems obtain new where "scan_rows rows header_found (acc @ new) = Inr out"
        by (auto split: sum.splits)
      then have "set (acc @ new) \<subseteq> set out" by (rule Cons.IH)
      then show ?thesis by simp
    qed
  qed
qed

lemma scan_rows_emits:
  "scan_rows (mid @ row # post) True acc = Inr out \<Longrightarrow> collect_row row = Inr new \<Longrightarrow>
     set new \<subseteq> set out"
proof (induction mid arbitrary: acc)
  case Nil
  then have "scan_rows post True (acc @ new) = Inr out" by simp
  then have "set (acc @ new) \<subseteq> set out" by (rule scan_rows_keeps_acc)
  then show ?case by simp
next
  case (Cons m mid)
  from Cons.prems(1) obtain n where "scan_rows (mid @ row # post) True (acc @ n) = Inr out"
    by (auto split: sum.splits)
  then show ?case using Cons.prems(2) by (rule Cons.IH)
qed

lemma map_of_store_table:
  "map_of (store_table df_str councils_data (start_idx, council_name, end_idx)) name =
     (case build_section df_str start_idx end_idx of
        Inr (Some council_df) \<Rightarrow>
          if name = council_name then Some council_df else map_of councils_data name
      | _ \<Rightarrow> map_of councils_data name)"
  by (simp add: store_table_def update_conv' split: sum.split option.split)

lemma map_of_foldl_store_others:
  "name \<notin> set (map (fst \<circ> snd) secs) \<Longrightarrow>
     map_of (foldl (store_table df_str) councils_data secs) name = map_of councils_data name"
proof (induction secs arbitrary: councils_data)
  case Nil
  show ?case by simp
next
  case (Cons sec secs)
  obtain s n e where sec: "sec = (s, n, e)" by (cases sec)
  from Cons.prems sec have ne: "name \<noteq> n" and rest: "name \<notin> set (map (fst \<circ> snd) secs)"
    by auto
  have "map_of (foldl (store_table df_str) councils_data (sec # secs)) name =
        map_of (store_table df_str councils_data sec) name"
    using Cons.IH [OF rest] by simp
  also have "\<dots> = map_of councils_data name"
    using ne by (simp add: sec map_of_store_table split: sum.split option.split)
  finally show ?case .
qed

lemma section_spans_names: "map (fst \<circ> snd) (section_spans df_str sections) = map snd sections"
  by (induction sections) auto

lemma section_spans_append:
  "\<exists>spans. section_spans df_str (before @ (start_idx, council_name) # rest) =
     spans @ (start_idx, council_name, end_of df_str rest) # section_spans df_str rest"
proof (induction before)
  case Nil
  have "section_spans df_str ([] @ (start_idx, council_name) # rest) =
     [] @ (start_idx, council_name, end_of df_str rest) # section_spans df_str rest"
    by simp
  then show ?case by blast
next
  case (Cons sec before)
  obtain s n where sec: "sec = (s, n)" by (cases sec)
  from Cons.IH obtain spans where
    "section_spans df_str (before @ (start_idx, council_name) # rest) =
       spans @ (start_idx, council_name, end_of df_str rest) # section_spans df_str rest"
    by blast
  then have "section_spans df_str ((sec # before) @ (start_idx, council_name) # rest) =
       ((s, n, end_of df_str (before @ (start_idx, council_name) # rest)) # spans) @
       (start_idx, council_name, end_of df_str rest) # section_spans df_str rest"
    by (simp add: sec)
  then show ?case by blast
qed

lemma parse_lookup:
  assumes "council_sections df_str = before @ (start_idx, council_name) # rest"
    and "council_name \<notin> snd ` set rest"
    and "build_section df_str start_idx (end_of df_str rest) = Inr (Some council_df)"
  shows "map_of (fst (parse_election_data df_str page)) council_name = Some council_df"
proof -
  from section_spans_append [of df_str before start_idx council_name rest] assms(1)
  obtain spans where sp: "section_spans df_str (council_sections df_str) =
     spans @ (start_idx, council_name, end_of df_str rest) # section_spans df_str rest"
    by auto
  from assms(2) have other: "council_name \<notin> set (map (fst \<circ> snd) (section_spans df_str rest))"
    by (simp only: section_spans_names) simp
  have "fst (parse_election_data df_str page) =
      foldl (store_table df_str) [] (section_spans df_str (council_sections df_str))"
    by (simp add: parse_election_data_def Let_def fst_process_sections)
  also have "\<dots> = foldl (store_table df_str)
      (store_table df_str (foldl (store_table df_str) [] spans)
         (start_idx, council_name, end_of df_str rest))
      (section_spans df_str rest)"
    by (simp only: sp foldl_append foldl_Cons)
  finally have "map_of (fst (parse_election_data df_str page)) council_name =
      map_of (store_table df_str (foldl (store_table df_str) [] spans)
         (start_idx, council_name, end_of df_str rest)) council_name"
    using map_of_foldl_store_others [OF other] by simp
  also have "\<dots> = Some council_df"
    by (simp add: map_of_store_table assms(3))
  finally show ?thesis .
qed

lemma collect_row_three:
  assumes "row_data row = party # v # s # others"
    and "coerce v = Inr votes" and "coerce s = Inr seats"
  shows "collect_row row =
     Inr (if upper party = ''TOTAL'' then []
          else [\<lparr>Party = party, Votes = votes, Seats = seats\<rparr>])"
  using assms by (simp add: collect_row_def Let_def)

text \<open>
  C10, as the code has it. The test for the summary row is made on the first usable value
  of the row as it stands, not on its trimmed text, and only rows that reach the test are
  concerned: a row after the header row with three usable values at least, whose votes and
  seats are both read as integers, the votes more than 0, in a section that raises no
  error and whose title no later section bears. When the first usable value of such a row
  is \<open>TOTAL\<close> in any case with white space around it, the row is emitted as a record and
  the record is in the table stored under the title. With the same numbers, a row emits
  nothing exactly when its first usable value, upper-cased, is \<open>TOTAL\<close> itself.
\<close>

theorem spaced_total_row_emitted:
  assumes sections: "council_sections df_str = before @ (start_idx, council_name) # rest"
    and unique: "council_name \<notin> snd ` set rest"
    and rows: "section_rows df_str start_idx (end_of df_str rest) = pre @ header # mid @ row # post"
    and pre: "\<forall>r \<in> set pre. \<not> is_header_row r"
    and header: "is_header_row header"
    and no_raise: "\<not> isl (build_section df_str start_idx (end_of df_str rest))"
    and usable: "row_data row = party # v # s # others"
    and spaced: "upper (strip party) = ''TOTAL'' \<and> strip party \<noteq> party"
    and votes: "coerce v = Inr votes \<and> 0 < votes"
    and seats: "coerce s = Inr seats"
  shows "collect_row row = Inr [\<lparr>Party = party, Votes = votes, Seats = seats\<rparr>] \<and>
         (\<exists>council_df. map_of (fst (parse_election_data df_str page)) council_name = Some council_df \<and>
            \<lparr>Party = party, Votes = votes, Seats = seats\<rparr> \<in> set council_df) \<and>
         (\<forall>row' party' others'. row_data row' = party' # v # s # others' \<longrightarrow>
            (collect_row row' = Inr [] \<longleftrightarrow> upper party' = ''TOTAL''))"
proof (intro conjI)
  let ?r = "\<lparr>Party = party, Votes = votes, Seats = seats\<rparr>"
  from spaced upper_TOTAL_no_space [of party] have nt: "upper party \<noteq> ''TOTAL''" by auto
  from votes have v: "coerce v = Inr votes" and pos: "0 < votes" by simp_all
  from collect_row_three [OF usable v seats] nt
  show emitted: "collect_row row = Inr [?r]" by simp
  from pre have "scan_rows (pre @ header # mid @ row # post) False [] =
      scan_rows (header # mid @ row # post) False []"
    by (rule scan_rows_before_header)
  with rows header
  have sr: "scan_rows (section_rows df_str start_idx (end_of df_str rest)) False [] =
      scan_rows (mid @ row # post) True []"
    by simp
  from no_raise obtain section_data where
    sd: "scan_rows (mid @ row # post) True [] = Inr section_data"
    by (auto simp add: build_section_def sr split: sum.splits)
  from scan_rows_emits [OF sd emitted] have m: "?r \<in> set section_data" by simp
  then have "section_data \<noteq> []" by auto
  then have "build_section df_str start_idx (end_of df_str rest) =
      Inr (Some (positive_votes section_data))"
    by (simp add: build_section_def sr sd)
  then have "map_of (fst (parse_election_data df_str page)) council_name =
      Some (positive_votes section_data)"
    by (rule parse_lookup [OF sections unique])
  moreover from m pos have "?r \<in> set (positive_votes section_data)"
    by (simp add: positive_votes_def)
  ultimately show "\<exists>council_df.
      map_of (fst (parse_election_data df_str page)) council_name = Some council_df \<and>
      ?r \<in> set council_df"
    by blast
  show "\<forall>row' party' others'. row_data row' = party' # v # s # others' \<longrightarrow>
      (collect_row row' = Inr [] \<longleftrightarrow> upper party' = ''TOTAL'')"
  proof (intro allI impI)
    fix row' party' others'
    assume "row_data row' = party' # v # s # others'"
    from collect_row_three [OF this v seats]
    show "collect_row row' = Inr [] \<longleftrightarrow> upper party' = ''TOTAL''" by simp
  qed
qed

theorem spaced_total_row_emitted_witness:
  "council_sections grid_spaced_total = [] @ (0, ''1 - MANNAR URBAN COUNCIL'') # [] \<and>
   section_rows grid_spaced_total 0 (end_of grid_spaced_total []) =
     [[''nan'', ''nan'', ''nan'', ''nan'']] @ [''Party'', ''Votes'', ''Total'', ''nan''] #
     [[''UNP'', ''1500'', ''2'', ''nan'']] @ [''nan'', '' TOTAL '', ''2500'', ''3''] # [[''SLPP'', ''1000'', ''1'', ''nan'']] \<and>
   \<not> is_header_row [''nan'', ''nan'', ''nan'', ''nan''] \<and>
   is_header_row [''Party'', ''Votes'', ''Total'', ''nan''] \<and>
   \<not> isl (build_section grid_spaced_total 0 (end_of grid_spaced_total [])) \<and>
   row_data [''nan'', '' TOTAL '', ''2500'', ''3''] = '' TOTAL '' # ''2500'' # ''3'' # [] \<and>
   upper (strip '' TOTAL '') = ''TOTAL'' \<and> strip '' TOTAL '' \<noteq> '' TOTAL '' \<and>
   coerce ''2500'' = Inr 2500 \<and> coerce ''3'' = Inr 3 \<and>
   collect_row [''nan'', '' TOTAL '', ''2500'', ''3''] =
     Inr [\<lparr>Party = '' TOTAL '', Votes = 2500, Seats = 3\<rparr>] \<and>
   (\<exists>council_df.
      map_of (fst (parse_election_data grid_spaced_total [])) ''1 - MANNAR URBAN COUNCIL'' =
        Some council_df \<and>
      \<lparr>Party = '' TOTAL '', Votes = 2500, Seats = 3\<rparr> \<in> set council_df) \<and>
   row_data [''Total'', '''', ''2500'', ''3''] = ''Total'' # ''2500'' # ''3'' # [] \<and>
   collect_row [''Total'', '''', ''2500'', ''3''] = Inr []"
proof -
  have h1: "council_sections grid_spaced_total = [] @ (0, ''1 - MANNAR URBAN COUNCIL'') # []"
    by code_simp
  have h2: "''1 - MANNAR URBAN COUNCIL'' \<notin> snd ` set ([] :: (nat \<times> string) list)"
    by simp
  have h3: "section_rows grid_spaced_total 0 (end_of grid_spaced_total []) =
     [[''nan'', ''nan'', ''nan'', ''nan'']] @ [''Party'', ''Votes'', ''Total'', ''nan''] #
     [[''UNP'', ''1500'', ''2'', ''nan'']] @ [''nan'', '' TOTAL '', ''2500'', ''3''] # [[''SLPP'', ''1000'', ''1'', ''nan'']]"
    by code_simp
  have h4: "\<not> is_header_row [''nan'', ''nan'', ''nan'', ''nan'']"
    by code_simp
  then have h4': "\<forall>r \<in> set [[''nan'', ''nan'', ''nan'', ''nan'']]. \<not> is_header_row r"
    by simp
  have h5: "is_header_row [''Party'', ''Votes'', ''Total'', ''nan'']"
    by code_simp
  have h6: "\<not> isl (build_section grid_spaced_total 0 (end_of grid_spaced_total []))"
    by code_simp
  have h7: "row_data [''nan'', '' TOTAL '', ''2500'', ''3''] = '' TOTAL '' # ''2500'' # ''3'' # []"
    by code_simp
  have h8: "upper (strip '' TOTAL '') = ''TOTAL'' \<and> strip '' TOTAL '' \<noteq> '' TOTAL ''"
    by code_simp
  have h9: "coerce ''2500'' = Inr 2500"
    by code_simp
  have h10: "coerce ''3'' = Inr 3"
    by code_simp
  from h9 have h9': "coerce ''2500'' = Inr 2500 \<and> (0::int) < 2500" by simp
  have h11: "row_data [''Total'', '''', ''2500'', ''3''] = ''Total'' # ''2500'' # ''3'' # []"
    by code_simp
  have h12: "upper ''Total'' = ''TOTAL''"
    by code_simp
  note t = spaced_total_row_emitted [OF h1 h2 h3 h4' h5 h6 h7 h8 h9' h10, of "[]"]
  from t have c1: "collect_row [''nan'', '' TOTAL '', ''2500'', ''3''] =
     Inr [\<lparr>Party = '' TOTAL '', Votes = 2500, Seats = 3\<rparr>]"
    by (rule conjunct1)
  from t have c2: "\<exists>council_df.
      map_of (fst (parse_election_data grid_spaced_total [])) ''1 - MANNAR URBAN COUNCIL'' =
        Some council_df \<and>
      \<lparr>Party = '' TOTAL '', Votes = 2500, Seats = 3\<rparr> \<in> set council_df"
    by blast
  from t h11 h12 have c3: "collect_row [''Total'', '''', ''2500'', ''3''] = Inr []"
    by blast
  from h1 h3 h4 h5 h6 h7 h8 h9 h10 c1 c2 h11 c3 show ?thesis by blast
qed

text \<open>
  Votes that parse and are positive do not suffice: in \<open>grid_unparsable_seats\<close> the two
  rows with \<open>TOTAL\<close> between blanks have the votes 2500, but the seats text of the first is
  no number and the second has two usable values only. Both rows are skipped, and the
  table of the section holds the one party row.
\<close>

theorem spaced_total_row_skipped:
  "upper (strip '' TOTAL '') = ''TOTAL'' \<and> strip '' TOTAL '' \<noteq> '' TOTAL '' \<and>
   coerce ''2500'' = Inr 2500 \<and>
   coerce ''abc'' = Inl ValueError \<and>
   collect_row ['' TOTAL '', ''2500'', ''abc''] = Inr [] \<and>
   row_data ['' TOTAL '', ''2500'', ''nan''] = ['' TOTAL '', ''2500''] \<and>
   collect_row ['' TOTAL '', ''2500'', ''nan''] = Inr [] \<and>
   fst (parse_election_data grid_unparsable_seats []) =
     [(''1 - MANNAR URBAN COUNCIL'', [\<lparr>Party = ''UNP'', Votes = 1500, Seats = 2\<rparr>])]"
  by code_simp

end
